theory Spec2Isabelle
  imports Main "HOL-Library.Sublist"
begin

section \<open>The world outside the class\<close>

text \<open>
  \<^verbatim>\<open>src/crawler.ts\<close> is one abstract class, \<^verbatim>\<open>Crawler\<close>, around a browser-automation
  library, the file system, timers and the console. Every call that leaves the class is
  a \<open>call\<close>; the calls made so far, each with its outcome, are the \<open>events\<close> of the
  state. What an external call answers (whether it throws, what it returns) is decided
  by an environment \<open>env\<close> that sees the events so far, so a directory listing can change
  from one poll to the next and any call can fail at any moment. Calls of the logger
  (\<^verbatim>\<open>logger.debug\<close>) have no effect on control flow and are left out of the events.
\<close>

type_synonym page = nat
type_synonym element = nat
type_synonym click_options = "(string \<times> string) list"

datatype error = JsTypeError string | JsError string

text \<open>
  The calls, with the arguments the class passes: \<open>Launch\<close> is \<^verbatim>\<open>puppeteer.launch\<close> with
  the headless flag, the executable path and the arguments; \<open>CdpSend\<close> is \<^verbatim>\<open>client.send\<close>
  with the method, the behavior and the download path; \<open>PageWaitForNavigation\<close> carries
  \<^verbatim>\<open>waitUntil\<close>, \<open>PageWaitForSelector\<close> the timeout, \<open>PageType\<close> the optional delay;
  \<open>PageEvaluateClick\<close> is the \<^verbatim>\<open>page.evaluate\<close> of \<open>waitAndClick\<close>, which clicks the
  element if there is one; the flag of \<open>MkdirSync\<close> is the \<^verbatim>\<open>recursive\<close> option;
  \<open>CopyFileSync\<close> has the source and the destination, \<open>WriteFileSync\<close> the path and the
  data; \<open>SetTimeout\<close> is a wait on a timer of that many milliseconds.
\<close>

datatype call =
    Launch bool "string option" "string list"
  | BrowserPages
  | BrowserClose
  | CreateCDPSession page
  | CdpSend string string string
  | PageGoto page string
  | PageWaitForNavigation page string
  | PageWaitForSelector page string int
  | PageClick page string "click_options option"
  | PageType page string string "int option"
  | PageWaitForTimeout page int
  | PageEvaluateClick page string
  | PageContent page
  | MkdirSync string bool
  | ExistsSync string
  | StatSync string
  | ReaddirSync string
  | CopyFileSync string string
  | WriteFileSync string string
  | SetTimeout int
  | ConsoleLog string

datatype outcome = Returned | Threw error

type_synonym event = "call \<times> outcome"

text \<open>
  The environment. \<open>env_throws h c\<close> is the error that call \<open>c\<close> throws after the events
  \<open>h\<close>, if it throws. \<open>env_platform\<close> is \<^verbatim>\<open>os.platform()\<close>, \<open>env_dirname\<close> is \<^verbatim>\<open>__dirname\<close>,
  \<open>env_resolve\<close> is \<^verbatim>\<open>path.resolve\<close> on its list of arguments. The other fields are what
  the calls that return a value answer: the open tabs, the listing of a directory (in
  the order the system gives it), whether a path exists and is a directory, the markup
  of a page, the element a selector matches, and which of two promises that both reject
  rejects first.
\<close>

record env =
  env_throws :: "event list \<Rightarrow> call \<Rightarrow> error option"
  env_platform :: string
  env_dirname :: string
  env_resolve :: "string list \<Rightarrow> string"
  env_pages :: "event list \<Rightarrow> page list"
  env_readdir :: "event list \<Rightarrow> string \<Rightarrow> string list"
  env_exists :: "event list \<Rightarrow> string \<Rightarrow> bool"
  env_isDirectory :: "event list \<Rightarrow> string \<Rightarrow> bool"
  env_content :: "event list \<Rightarrow> page \<Rightarrow> string"
  env_element :: "event list \<Rightarrow> string \<Rightarrow> element option"
  env_first_rejects :: "event list \<Rightarrow> bool"

text \<open>
  The fields of the class (lines 10 to 15), the level of the module's logger, which the
  constructor sets, and the events. \<open>page\<close> is declared \<^verbatim>\<open>page!: Page\<close>: it is
  \<^verbatim>\<open>undefined\<close> (here \<open>None\<close>) until \<^verbatim>\<open>run\<close> assigns it.
\<close>

record crawler =
  headless :: bool
  page :: "page option"
  tmpDir :: string
  downloadDir :: string
  hasError :: bool
  errorDump :: string
  logger_level :: string
  events :: "event list"

section \<open>Computations that may throw\<close>

type_synonym 'a io = "crawler \<Rightarrow> (error + 'a) \<times> crawler"

definition io_return :: "'a \<Rightarrow> 'a io" where
  "io_return x s = (Inr x, s)"

definition io_throw :: "error \<Rightarrow> 'a io" where
  "io_throw e s = (Inl e, s)"

definition io_bind :: "'a io \<Rightarrow> ('a \<Rightarrow> 'b io) \<Rightarrow> 'b io" where
  "io_bind m f s = (case m s of (Inl e, s') \<Rightarrow> (Inl e, s') | (Inr x, s') \<Rightarrow> f x s')"

text \<open>\<^verbatim>\<open>try { body } catch (e) { handler(e) }\<close>\<close>

definition try_catch :: "'a io \<Rightarrow> (error \<Rightarrow> 'a io) \<Rightarrow> 'a io" where
  "try_catch body handler s =
     (case body s of (Inl e, s') \<Rightarrow> handler e s' | (Inr x, s') \<Rightarrow> (Inr x, s'))"

text \<open>
  \<^verbatim>\<open>try { body } finally { fin }\<close>: \<open>fin\<close> runs whatever \<open>body\<close> did; when \<open>fin\<close>
  throws, its error replaces the outcome of \<open>body\<close>.
\<close>

definition try_finally :: "'a io \<Rightarrow> unit io \<Rightarrow> 'a io" where
  "try_finally body fin s =
     (case body s of (r, s') \<Rightarrow>
        (case fin s' of (Inl e, s'') \<Rightarrow> (Inl e, s'') | (Inr u, s'') \<Rightarrow> (r, s'')))"

text \<open>An external call: the environment decides whether it throws; either way it is recorded.\<close>

definition ext :: "env \<Rightarrow> call \<Rightarrow> unit io" where
  "ext env c s =
     (case env_throws env (events s) c of
        Some e \<Rightarrow> (Inl e, s\<lparr>events := events s @ [(c, Threw e)]\<rparr>)
      | None \<Rightarrow> (Inr (), s\<lparr>events := events s @ [(c, Returned)]\<rparr>))"

text \<open>
  A method call on \<^verbatim>\<open>this.page\<close>: while the field is \<^verbatim>\<open>undefined\<close> the property access
  throws a TypeError and nothing reaches the browser.
\<close>

definition on_page :: "env \<Rightarrow> (page \<Rightarrow> call) \<Rightarrow> unit io" where
  "on_page env f s =
     (case page s of
        None \<Rightarrow> (Inl (JsTypeError ''Cannot read properties of undefined''), s)
      | Some p \<Rightarrow> ext env (f p) s)"

text \<open>
  \<^verbatim>\<open>await Promise.all([a, b])\<close> on two calls: both are issued, in this order, before
  anything is awaited; the result is rejected when one of them is, with the reason of
  the one that rejects first, which the environment decides when both reject.
\<close>

definition promise_all2 :: "env \<Rightarrow> call \<Rightarrow> call \<Rightarrow> unit io" where
  "promise_all2 env c1 c2 s =
     (case ext env c1 s of (r1, s1) \<Rightarrow>
        (case ext env c2 s1 of (r2, s2) \<Rightarrow>
           (case r1 of
              Inr u \<Rightarrow> (r2, s2)
            | Inl e1 \<Rightarrow>
                (case r2 of
                   Inr u \<Rightarrow> (Inl e1, s2)
                 | Inl e2 \<Rightarrow> (if env_first_rejects env (events s) then Inl e1 else Inl e2, s2)))))"

text \<open>\<^verbatim>\<open>await new Promise(r => setTimeout(r, ms))\<close>: a timer, which cannot fail.\<close>

definition sleep :: "int \<Rightarrow> crawler \<Rightarrow> crawler" where
  "sleep ms s = s\<lparr>events := events s @ [(SetTimeout ms, Returned)]\<rparr>"

text \<open>\<^verbatim>\<open>console.log\<close>: recorded, and it does not throw.\<close>

definition console_log :: "string \<Rightarrow> unit io" where
  "console_log msg s = (Inr (), s\<lparr>events := events s @ [(ConsoleLog msg, Returned)]\<rparr>)"

text \<open>\<^verbatim>\<open>fs.existsSync\<close> answers \<^verbatim>\<open>false\<close> instead of throwing.\<close>

definition fs_existsSync :: "env \<Rightarrow> string \<Rightarrow> bool io" where
  "fs_existsSync env p s =
     (Inr (env_exists env (events s) p), s\<lparr>events := events s @ [(ExistsSync p, Returned)]\<rparr>)"

text \<open>\<^verbatim>\<open>fs.statSync(p).isDirectory()\<close>\<close>

definition fs_statSync_isDirectory :: "env \<Rightarrow> string \<Rightarrow> bool io" where
  "fs_statSync_isDirectory env p s =
     (case ext env (StatSync p) s of
        (Inl e, s') \<Rightarrow> (Inl e, s')
      | (Inr u, s') \<Rightarrow> (Inr (env_isDirectory env (events s) p), s'))"

definition fs_readdirSync :: "env \<Rightarrow> string \<Rightarrow> (string list) io" where
  "fs_readdirSync env p s =
     (case ext env (ReaddirSync p) s of
        (Inl e, s') \<Rightarrow> (Inl e, s')
      | (Inr u, s') \<Rightarrow> (Inr (env_readdir env (events s) p), s'))"

definition browser_pages :: "env \<Rightarrow> (page list) io" where
  "browser_pages env s =
     (case ext env BrowserPages s of
        (Inl e, s') \<Rightarrow> (Inl e, s')
      | (Inr u, s') \<Rightarrow> (Inr (env_pages env (events s)), s'))"

definition page_content :: "env \<Rightarrow> string io" where
  "page_content env s =
     (case page s of
        None \<Rightarrow> (Inl (JsTypeError ''Cannot read properties of undefined''), s)
      | Some p \<Rightarrow>
          (case ext env (PageContent p) s of
             (Inl e, s') \<Rightarrow> (Inl e, s')
           | (Inr u, s') \<Rightarrow> (Inr (env_content env (events s) p), s')))"

section \<open>The class\<close>

subsection \<open>Constructor (lines 17 to 21)\<close>

definition Crawler :: "bool \<Rightarrow> bool \<Rightarrow> string \<Rightarrow> crawler" where
  "Crawler debug headless_arg downloadDir_arg =
     \<lparr> headless = headless_arg,
       page = None,
       tmpDir = [],
       downloadDir = downloadDir_arg,
       hasError = False,
       errorDump = (if debug then ''error.html'' else []),
       logger_level = (if debug then ''debug'' else ''off''),
       events = [] \<rparr>"

subsection \<open>Pass-through operations (lines 78 to 160)\<close>

definition waitForTimeout :: "env \<Rightarrow> int \<Rightarrow> unit io" where
  "waitForTimeout env milliseconds = on_page env (\<lambda>p. PageWaitForTimeout p milliseconds)"

definition goto :: "env \<Rightarrow> string \<Rightarrow> unit io" where
  "goto env url s =
     (case page s of
        None \<Rightarrow> (Inl (JsTypeError ''Cannot read properties of undefined''), s)
      | Some p \<Rightarrow>
          promise_all2 env (PageGoto p url) (PageWaitForNavigation p ''domcontentloaded'') s)"

definition exists :: "env \<Rightarrow> string \<Rightarrow> bool io" where
  "exists env selector =
     io_bind (waitForTimeout env 1000) (\<lambda>u.
       try_catch
         (io_bind (on_page env (\<lambda>p. PageWaitForSelector p selector 5000)) (\<lambda>u. io_return True))
         (\<lambda>e. io_return False))"

definition click :: "env \<Rightarrow> string \<Rightarrow> click_options option \<Rightarrow> unit io" where
  "click env selector options =
     io_bind (waitForTimeout env 1000) (\<lambda>u s.
       (case page s of
          None \<Rightarrow> (Inl (JsTypeError ''Cannot read properties of undefined''), s)
        | Some p \<Rightarrow>
            promise_all2 env (PageClick p selector options) (PageWaitForNavigation p ''load'') s))"

definition type :: "env \<Rightarrow> string \<Rightarrow> string \<Rightarrow> int option \<Rightarrow> unit io" where
  "type env selector text_arg options =
     io_bind (waitForTimeout env 1000) (\<lambda>u.
       on_page env (\<lambda>p. PageType p selector text_arg options))"

definition waitForSelector :: "env \<Rightarrow> string \<Rightarrow> (element option) io" where
  "waitForSelector env selector s =
     (case on_page env (\<lambda>p. PageWaitForSelector p selector 5000) s of
        (Inl e, s') \<Rightarrow> (Inl e, s')
      | (Inr u, s') \<Rightarrow> (Inr (env_element env (events s) selector), s'))"

definition waitAndClick :: "env \<Rightarrow> string \<Rightarrow> unit io" where
  "waitAndClick env selector =
     io_bind (on_page env (\<lambda>p. PageWaitForSelector p selector 5000)) (\<lambda>u.
       on_page env (\<lambda>p. PageEvaluateClick p selector))"

subsection \<open>run (lines 23 to 72)\<close>

definition backslash :: string where
  "backslash = [CHR 0x5C]"

definition chrome :: "string \<Rightarrow> string option" where
  "chrome platform =
     (if platform = ''linux'' then Some ''/usr/bin/google-chrome''
      else if platform = ''win32'' then
        Some (''C:'' @ backslash @ ''Program Files (x86)'' @ backslash @ ''Google'' @ backslash
              @ ''Chrome'' @ backslash @ ''Application'' @ backslash @ ''chrome.exe'')
      else if platform = ''darwin'' then
        Some ''/Applications/Google Chrome.app/Contents/MacOS/Google Chrome''
      else None)"

text \<open>Lines 24 to 55: everything \<^verbatim>\<open>run\<close> does before its \<^verbatim>\<open>try\<close> block.\<close>

definition launch_and_setup :: "env \<Rightarrow> unit io" where
  "launch_and_setup env =
     io_bind (\<lambda>s. ext env (Launch (headless s) (chrome (env_platform env))
                              [''--no-sandbox'', ''--disable-setuid-sandbox'']) s) (\<lambda>u.
     io_bind (browser_pages env) (\<lambda>ps.
     io_bind (\<lambda>s. io_return () (s\<lparr>page := (case ps of [] \<Rightarrow> None | p # rest \<Rightarrow> Some p)\<rparr>)) (\<lambda>u.
     io_bind (\<lambda>s. io_return () (s\<lparr>tmpDir := env_resolve env [env_dirname env, ''temp'']\<rparr>)) (\<lambda>u.
     io_bind (\<lambda>s. ext env (MkdirSync (tmpDir s) False) s) (\<lambda>u.
     io_bind (\<lambda>s. io_return (env_resolve env [tmpDir s]) s) (\<lambda>tempDir.
     io_bind (on_page env CreateCDPSession) (\<lambda>u.
       ext env (CdpSend ''Page.setDownloadBehavior'' ''allow'' tempDir))))))))"

text \<open>Lines 61 to 68: the \<^verbatim>\<open>catch\<close> block. A string is truthy when it is not empty.\<close>

definition dump_and_rethrow :: "env \<Rightarrow> error \<Rightarrow> unit io" where
  "dump_and_rethrow env e =
     io_bind (\<lambda>s.
       if errorDump s = [] then io_return () s
       else io_bind (page_content env) (\<lambda>markup.
            io_bind (\<lambda>s'. ext env (WriteFileSync (errorDump s') markup) s') (\<lambda>u s'.
              console_log (''Current DOM has been saved at '' @ errorDump s') s')) s)
       (\<lambda>u. io_throw e)"

text \<open>\<open>crawl\<close> is the abstract method: whatever the subclass does with the state.\<close>

definition run :: "env \<Rightarrow> unit io \<Rightarrow> unit io" where
  "run env crawl =
     io_bind (launch_and_setup env) (\<lambda>u.
       try_finally (try_catch crawl (dump_and_rethrow env)) (ext env BrowserClose))"

subsection \<open>waitForDownload (lines 162 to 189)\<close>

definition endsWith :: "string \<Rightarrow> string \<Rightarrow> bool" where
  "endsWith s suf = (length suf \<le> length s \<and> drop (length s - length suf) s = suf)"

text \<open>\<^verbatim>\<open>fs.readdirSync(this.tmpDir)[0]\<close>: \<^verbatim>\<open>undefined\<close> for an empty listing.\<close>

definition first_entry :: "string list \<Rightarrow> string option" where
  "first_entry names = (case names of [] \<Rightarrow> None | n # rest \<Rightarrow> Some n)"

text \<open>
  \<^verbatim>\<open>!downloadFile || downloadFile.endsWith('.crdownload')\<close>: \<^verbatim>\<open>undefined\<close> and the
  empty string are falsy.
\<close>

definition not_yet_complete :: "string option \<Rightarrow> bool" where
  "not_yet_complete f =
     (case f of None \<Rightarrow> True | Some n \<Rightarrow> (if n = [] then True else endsWith n ''.crdownload''))"

text \<open>
  The \<^verbatim>\<open>do ... while\<close> loop of lines 167 to 171; \<open>elapsed\<close> is its value on entry to the
  body. The result is \<^verbatim>\<open>downloadFile\<close> when the loop ends. The timeout is a whole number
  of milliseconds, of either sign; \<open>elapsed\<close> grows by 100 each round, so the loop ends.
\<close>

function poll :: "env \<Rightarrow> int \<Rightarrow> int \<Rightarrow> crawler \<Rightarrow> (error + string option) \<times> crawler" where
  "poll env timeout elapsed s =
     (case fs_readdirSync env (tmpDir (sleep 100 s)) (sleep 100 s) of
        (Inl e, s2) \<Rightarrow> (Inl e, s2)
      | (Inr names, s2) \<Rightarrow>
          (if elapsed + 100 < timeout \<and> not_yet_complete (first_entry names)
           then poll env timeout (elapsed + 100) s2
           else (Inr (first_entry names), s2)))"
  by pat_completeness auto
termination
  by (relation "measure (\<lambda>(env, timeout, elapsed, s). nat (timeout - elapsed))") auto

declare poll.simps [simp del]

text \<open>Lines 177 to 188: create the destination directory, copy, return the path.\<close>

definition store_download :: "env \<Rightarrow> string \<Rightarrow> (string option) io" where
  "store_download env downloadFile =
     io_bind (\<lambda>s. fs_existsSync env (downloadDir s) s) (\<lambda>ex.
     io_bind (if ex
              then io_bind (\<lambda>s. fs_statSync_isDirectory env (downloadDir s) s)
                     (\<lambda>isdir. io_return (if isdir then False else True))
              else io_return True) (\<lambda>create.
     io_bind (if create then (\<lambda>s. ext env (MkdirSync (downloadDir s) True) s)
              else io_return ()) (\<lambda>u s.
       io_bind (ext env (CopyFileSync (env_resolve env [tmpDir s, downloadFile])
                                      (env_resolve env [downloadDir s, downloadFile])))
         (\<lambda>u. io_return (Some (env_resolve env [downloadDir s, downloadFile]))) s)))"

definition waitForDownload :: "env \<Rightarrow> int \<Rightarrow> (string option) io" where
  "waitForDownload env timeout =
     io_bind (poll env timeout 0) (\<lambda>downloadFile.
       (case downloadFile of
          None \<Rightarrow> io_return None
        | Some f \<Rightarrow> if f = [] then io_return None else store_download env f))"

text \<open>The default of the parameter: \<^verbatim>\<open>timeout: number = 5000\<close>.\<close>

definition waitForDownload_default_timeout :: int where
  "waitForDownload_default_timeout = 5000"

subsection \<open>readUserInput (lines 118 to 137)\<close>

text \<open>
  The method returns a promise and registers two callbacks that resolve it: a timer
  (\<^verbatim>\<open>resolve("")\<close>) and the answer of the readline prompt (\<^verbatim>\<open>resolve(answer)\<close>).
  A promise is pending (\<open>None\<close>) or resolved; resolving a resolved promise changes
  nothing. The user is the environment: \<open>None\<close> when no answer ever comes, or the time
  in milliseconds after the call at which the answer is entered, and the answer. The
  timer's delay is what \<^verbatim>\<open>setTimeout\<close> makes of the argument: a delay below 1 or above
  2147483647 is 1. When both callbacks are due at the same time the timer's runs first.
  The masking of the echoed characters does not touch the promise and is left out.
\<close>

definition resolve :: "'a \<Rightarrow> 'a option \<Rightarrow> 'a option" where
  "resolve v p = (case p of None \<Rightarrow> Some v | Some w \<Rightarrow> Some w)"

datatype input_event = TimerFires | AnswerEntered string

definition on_input_event :: "input_event \<Rightarrow> string option \<Rightarrow> string option" where
  "on_input_event ev p =
     (case ev of TimerFires \<Rightarrow> resolve [] p | AnswerEntered answer \<Rightarrow> resolve answer p)"

definition timer_delay :: "int \<Rightarrow> int" where
  "timer_delay t = (if t < 1 then 1 else if 2147483647 < t then 1 else t)"

definition callbacks :: "int \<Rightarrow> (int \<times> string) option \<Rightarrow> input_event list" where
  "callbacks timeout user =
     (case user of
        None \<Rightarrow> [TimerFires]
      | Some (at, answer) \<Rightarrow>
          if at < timer_delay timeout then [AnswerEntered answer, TimerFires]
          else [TimerFires, AnswerEntered answer])"

definition readUserInput :: "string \<Rightarrow> bool \<Rightarrow> int \<Rightarrow> (int \<times> string) option \<Rightarrow> string option" where
  "readUserInput question password timeout user =
     foldl (\<lambda>p ev. on_input_event ev p) None (callbacks timeout user)"

definition readUserInput_default_timeout :: int where
  "readUserInput_default_timeout = 5 * 60 * 1000"

section \<open>Reading the events\<close>

text \<open>The events a computation adds when it runs from \<open>s\<close>, and the calls among them.\<close>

definition new_events :: "'a io \<Rightarrow> crawler \<Rightarrow> event list" where
  "new_events m s = drop (length (events s)) (events (snd (m s)))"

definition calls_made :: "'a io \<Rightarrow> crawler \<Rightarrow> call list" where
  "calls_made m s = map fst (new_events m s)"

text \<open>
  A computation that only adds events: what the subclass's \<open>crawl\<close> can do to the world,
  since a call that was made cannot be unmade.
\<close>

definition appends :: "'a io \<Rightarrow> bool" where
  "appends m = (\<forall>s. prefix (events s) (events (snd (m s))))"

text \<open>Environments and a path join for concrete runs.\<close>

fun join_paths :: "string list \<Rightarrow> string" where
  "join_paths [] = []"
| "join_paths [a] = a"
| "join_paths (a # b # rest) = a @ ''/'' @ join_paths (b # rest)"

definition quiet_env :: env where
  "quiet_env =
     \<lparr> env_throws = (\<lambda>h c. None),
       env_platform = ''linux'',
       env_dirname = ''/app'',
       env_resolve = join_paths,
       env_pages = (\<lambda>h. [0]),
       env_readdir = (\<lambda>h p. []),
       env_exists = (\<lambda>h p. False),
       env_isDirectory = (\<lambda>h p. False),
       env_content = (\<lambda>h p. ''<html></html>''),
       env_element = (\<lambda>h sel. Some 0),
       env_first_rejects = (\<lambda>h. True) \<rparr>"

text \<open>A computation that leaves an observation \<open>g\<close> of the state as it was.\<close>

definition preserves :: "(crawler \<Rightarrow> 'b) \<Rightarrow> 'a io \<Rightarrow> bool" where
  "preserves g m = (\<forall>s. g (snd (m s)) = g s)"

text \<open>
  Concrete runs: a crawler whose tab handle and staging directory are set, as the set-up
  of \<^verbatim>\<open>run\<close> sets them, and environments.
\<close>

definition ready_crawler :: crawler where
  "ready_crawler = (Crawler False True ''/dl'')\<lparr>page := Some 0, tmpDir := ''/app/temp''\<rparr>"

text \<open>
  The staging directory holds one download that never completes within the timeout.
\<close>

definition partial_env :: env where
  "partial_env = quiet_env\<lparr>env_readdir := (\<lambda>h p. [''report.pdf.crdownload''])\<rparr>"

text \<open>
  The staging directory is left over from an earlier run (\<^verbatim>\<open>run\<close> never removes it), so
  \<^verbatim>\<open>fs.mkdirSync\<close> without \<^verbatim>\<open>recursive\<close> throws.
\<close>

definition existing_temp_env :: env where
  "existing_temp_env =
     quiet_env\<lparr>env_throws := (\<lambda>h c.
       if c = MkdirSync ''/app/temp'' False then Some (JsError ''EEXIST: file already exists'')
       else None)\<rparr>"

text \<open>The tab is gone when the markup is asked for: \<^verbatim>\<open>page.content()\<close> rejects.\<close>

definition closed_target_env :: env where
  "closed_target_env =
     quiet_env\<lparr>env_throws := (\<lambda>h c.
       if c = PageContent 0 then Some (JsError ''Target closed'') else None)\<rparr>"

text \<open>
  The destination path exists and is a regular file: \<^verbatim>\<open>existsSync\<close> is true,
  \<^verbatim>\<open>isDirectory()\<close> is false, and \<^verbatim>\<open>mkdirSync\<close> throws also with \<^verbatim>\<open>recursive\<close>. One
  completed download is in the staging directory.
\<close>

definition dest_is_file_env :: env where
  "dest_is_file_env =
     quiet_env\<lparr>env_throws := (\<lambda>h c.
         if c = MkdirSync ''/dl'' True then Some (JsError ''EEXIST: file already exists'')
         else None),
       env_readdir := (\<lambda>h p. [''report.pdf'']),
       env_exists := (\<lambda>h p. True)\<rparr>"

text \<open>A \<open>crawl\<close> that fails at once.\<close>

definition failing_crawl :: "unit io" where
  "failing_crawl = io_throw (JsError ''boom'')"

text \<open>The selector never appears: the wait for it times out.\<close>

definition missing_selector_env :: env where
  "missing_selector_env =
     quiet_env\<lparr>env_throws := (\<lambda>h c.
       if c = PageWaitForSelector 0 ''#login'' 5000 then Some (JsError ''TimeoutError'') else None)\<rparr>"


text \<open>One completed download is in the staging directory; the destination is absent.\<close>

definition completed_env :: env where
  "completed_env = quiet_env\<lparr>env_readdir := (\<lambda>h p. [''report.pdf''])\<rparr>"

text \<open>A partial download is listed first, ahead of a completed one.\<close>

definition partial_first_env :: env where
  "partial_first_env =
     quiet_env\<lparr>env_readdir := (\<lambda>h p. [''a.zip.crdownload'', ''report.pdf''])\<rparr>"

text \<open>
  One completed download is in the staging directory; the destination exists and is a
  directory.
\<close>

definition existing_dest_env :: env where
  "existing_dest_env =
     quiet_env\<lparr>env_readdir := (\<lambda>h p. [''report.pdf'']),
       env_exists := (\<lambda>h p. True),
       env_isDirectory := (\<lambda>h p. True)\<rparr>"

section \<open>Every operation only adds events\<close>

lemma events_ext:
  "events (snd (ext env c s)) =
     events s @ [(c, case env_throws env (events s) c of None \<Rightarrow> Returned | Some e \<Rightarrow> Threw e)]"
  by (simp add: ext_def split: option.splits)

lemma appends_io_return: "appends (io_return x)"
  by (simp add: appends_def io_return_def)

lemma appends_io_throw: "appends (io_throw e)"
  by (simp add: appends_def io_throw_def)

lemma appends_ext: "appends (ext env c)"
  by (simp add: appends_def events_ext)

lemma appends_ext_of: "appends (\<lambda>s. ext env (g s) s)"
  by (simp add: appends_def events_ext)

lemma appends_io_bind:
  assumes "appends m" and "\<And>x. appends (f x)"
  shows "appends (io_bind m f)"
  unfolding appends_def
proof
  fix s
  show "prefix (events s) (events (snd (io_bind m f s)))"
  proof (cases "m s")
    case (Pair r s')
    have p1: "prefix (events s) (events s')"
      using assms(1) Pair by (auto simp: appends_def dest: spec [of _ s])
    show ?thesis
    proof (cases r)
      case (Inl e)
      with Pair p1 show ?thesis by (simp add: io_bind_def)
    next
      case (Inr x)
      have "prefix (events s') (events (snd (f x s')))"
        using assms(2) [of x] by (simp add: appends_def)
      with p1 Pair Inr show ?thesis by (auto simp: io_bind_def)
    qed
  qed
qed

lemma appends_try_catch:
  assumes "appends m" and "\<And>e. appends (h e)"
  shows "appends (try_catch m h)"
  unfolding appends_def
proof
  fix s
  show "prefix (events s) (events (snd (try_catch m h s)))"
  proof (cases "m s")
    case (Pair r s')
    have p1: "prefix (events s) (events s')"
      using assms(1) Pair by (auto simp: appends_def dest: spec [of _ s])
    show ?thesis
    proof (cases r)
      case (Inr x)
      with Pair p1 show ?thesis by (simp add: try_catch_def)
    next
      case (Inl e)
      have "prefix (events s') (events (snd (h e s')))"
        using assms(2) [of e] by (simp add: appends_def)
      with p1 Pair Inl show ?thesis by (auto simp: try_catch_def)
    qed
  qed
qed

lemma appends_try_finally:
  assumes "appends m" and "appends fin"
  shows "appends (try_finally m fin)"
  unfolding appends_def
proof
  fix s
  show "prefix (events s) (events (snd (try_finally m fin s)))"
  proof (cases "m s")
    case (Pair r s')
    have p1: "prefix (events s) (events s')"
      using assms(1) Pair by (auto simp: appends_def dest: spec [of _ s])
    have p2: "prefix (events s') (events (snd (fin s')))"
      using assms(2) by (simp add: appends_def)
    from p1 p2 have "prefix (events s) (events (snd (fin s')))" by auto
    with Pair show ?thesis
      by (cases "fin s'") (auto simp: try_finally_def split: sum.splits)
  qed
qed

lemma appends_on_page: "appends (on_page env f)"
  by (simp add: appends_def on_page_def events_ext split: option.splits)

lemma appends_console_log: "appends (console_log m)"
  by (simp add: appends_def console_log_def)

lemma appends_page_content: "appends (page_content env)"
  by (auto simp: appends_def page_content_def ext_def split: option.splits)

lemma appends_browser_pages: "appends (browser_pages env)"
  by (auto simp: appends_def browser_pages_def ext_def split: option.splits)

lemma appends_field_update:
  "(\<And>s. events (g s) = events s) \<Longrightarrow> appends (\<lambda>s. io_return x (g s))"
  by (simp add: appends_def io_return_def)

lemma appendsI: "(\<And>s. prefix (events s) (events (snd (m s)))) \<Longrightarrow> appends m"
  by (simp add: appends_def)

lemma appendsD: "appends m \<Longrightarrow> prefix (events s) (events (snd (m s)))"
  by (simp add: appends_def)

lemma appends_console_log_of: "appends (\<lambda>s. console_log (g s) s)"
  by (simp add: appends_def console_log_def)

lemma appends_dump_and_rethrow: "appends (dump_and_rethrow env e)"
  unfolding dump_and_rethrow_def
proof (rule appends_io_bind)
  show "appends (\<lambda>s. if errorDump s = [] then io_return () s
          else io_bind (page_content env) (\<lambda>markup.
                 io_bind (\<lambda>s'. ext env (WriteFileSync (errorDump s') markup) s')
                   (\<lambda>u s'. console_log (''Current DOM has been saved at '' @ errorDump s') s')) s)"
  proof (rule appendsI)
    fix s
    have "appends (io_bind (page_content env) (\<lambda>markup.
                 io_bind (\<lambda>s'. ext env (WriteFileSync (errorDump s') markup) s')
                   (\<lambda>u s'. console_log (''Current DOM has been saved at '' @ errorDump s') s')))"
      by (intro appends_io_bind appends_page_content appends_ext_of appends_console_log_of)
    from appendsD [OF this, of s]
    show "prefix (events s) (events (snd (if errorDump s = [] then io_return () s
          else io_bind (page_content env) (\<lambda>markup.
                 io_bind (\<lambda>s'. ext env (WriteFileSync (errorDump s') markup) s')
                   (\<lambda>u s'. console_log (''Current DOM has been saved at '' @ errorDump s') s')) s)))"
      by (simp add: io_return_def)
  qed
next
  fix u :: unit
  show "appends (io_throw e :: unit io)" by (rule appends_io_throw)
qed

lemma appends_launch_and_setup: "appends (launch_and_setup env)"
  unfolding launch_and_setup_def
  by (intro appends_io_bind appends_ext_of appends_browser_pages appends_field_update
        appends_on_page appends_ext) (simp_all add: appends_def io_return_def)

lemma appends_run: "appends crawl \<Longrightarrow> appends (run env crawl)"
  unfolding run_def
  by (intro appends_io_bind appends_launch_and_setup appends_try_finally appends_try_catch
        appends_dump_and_rethrow appends_ext)

lemma take1_new_events_bind_one:
  assumes one: "events (snd (m s)) = events s @ [ev]" and f: "\<And>x. appends (f x)"
  shows "take 1 (new_events (io_bind m f) s) = [ev]"
proof (cases "m s")
  case (Pair r s')
  show ?thesis
  proof (cases r)
    case (Inl e)
    with Pair one show ?thesis by (simp add: new_events_def io_bind_def)
  next
    case (Inr x)
    from appendsD [OF f, of s' x] obtain zs where "events (snd (f x s')) = events s' @ zs"
      by (auto simp: prefix_def)
    with Pair Inr one show ?thesis by (simp add: new_events_def io_bind_def)
  qed
qed

lemma take1_new_events_bind:
  assumes first: "take 1 (new_events m s) = [ev]" and m: "appends m" and f: "\<And>x. appends (f x)"
  shows "take 1 (new_events (io_bind m f) s) = [ev]"
proof -
  from appendsD [OF m, of s] obtain ys where ys: "events (snd (m s)) = events s @ ys"
    by (auto simp: prefix_def)
  with first have "take 1 ys = [ev]" by (simp add: new_events_def)
  then obtain ys' where ys': "ys = ev # ys'" by (cases ys) auto
  have "appends (io_bind m f)" using m f by (rule appends_io_bind)
  show ?thesis
  proof (cases "m s")
    case (Pair r s')
    show ?thesis
    proof (cases r)
      case (Inl e)
      with Pair ys ys' show ?thesis by (simp add: new_events_def io_bind_def)
    next
      case (Inr x)
      from appendsD [OF f, of s' x] obtain zs where "events (snd (f x s')) = events s' @ zs"
        by (auto simp: prefix_def)
      with Pair Inr ys ys' show ?thesis by (simp add: new_events_def io_bind_def)
    qed
  qed
qed

lemma setup_rest_appends:
  "appends (io_bind (browser_pages env) (\<lambda>ps.
     io_bind (\<lambda>s. io_return () (s\<lparr>page := (case ps of [] \<Rightarrow> None | p # rest \<Rightarrow> Some p)\<rparr>)) (\<lambda>u.
     io_bind (\<lambda>s. io_return () (s\<lparr>tmpDir := env_resolve env [env_dirname env, ''temp'']\<rparr>)) (\<lambda>u.
     io_bind (\<lambda>s. ext env (MkdirSync (tmpDir s) False) s) (\<lambda>u.
     io_bind (\<lambda>s. io_return (env_resolve env [tmpDir s]) s) (\<lambda>tempDir.
     io_bind (on_page env CreateCDPSession) (\<lambda>u.
       ext env (CdpSend ''Page.setDownloadBehavior'' ''allow'' tempDir))))))))"
  by (intro appends_io_bind appends_ext_of appends_browser_pages appends_field_update
        appends_on_page appends_ext) (simp_all add: appends_def io_return_def)

lemma launch_first:
  "take 1 (calls_made (launch_and_setup env) s) =
     [Launch (headless s) (chrome (env_platform env)) [''--no-sandbox'', ''--disable-setuid-sandbox'']]"
proof -
  have "take 1 (new_events (launch_and_setup env) s) =
     [(Launch (headless s) (chrome (env_platform env)) [''--no-sandbox'', ''--disable-setuid-sandbox''],
       case env_throws env (events s) (Launch (headless s) (chrome (env_platform env)) [''--no-sandbox'', ''--disable-setuid-sandbox'']) of None \<Rightarrow> Returned | Some e \<Rightarrow> Threw e)]"
    unfolding launch_and_setup_def
    by (rule take1_new_events_bind_one) (simp add: events_ext, rule setup_rest_appends)
  then show ?thesis by (simp add: calls_made_def take_map)
qed

section \<open>The headless flag\<close>

text \<open>
  C8. For both values of the constructor's \<open>headless\<close> argument, the first call \<open>run\<close>
  makes is the launch of the browser, and it carries that boolean unchanged as its
  headless flag (with the executable path of the platform and the two sandbox
  arguments). The subclass's \<open>crawl\<close> is any computation that only adds events.
\<close>

theorem run_passes_headless:
  assumes "appends crawl"
  shows "take 1 (calls_made (run env crawl) (Crawler debug h dl)) =
           [Launch h (chrome (env_platform env)) [''--no-sandbox'', ''--disable-setuid-sandbox'']]"
proof -
  let ?s = "Crawler debug h dl"
  from launch_first [of env ?s] obtain ev where
    ev: "take 1 (new_events (launch_and_setup env) ?s) = [ev]"
    and fst_ev: "fst ev = Launch h (chrome (env_platform env)) [''--no-sandbox'', ''--disable-setuid-sandbox'']"
    by (cases "take 1 (new_events (launch_and_setup env) ?s)")
       (auto simp: calls_made_def take_map Crawler_def)
  have "take 1 (new_events (run env crawl) ?s) = [ev]"
    unfolding run_def
    by (rule take1_new_events_bind [OF ev appends_launch_and_setup])
       (intro appends_try_finally appends_try_catch assms appends_dump_and_rethrow appends_ext)
  with fst_ev show ?thesis by (simp add: calls_made_def take_map)
qed

theorem run_passes_headless_witness:
  "appends (io_return () :: unit io) \<and>
   take 1 (calls_made (run quiet_env (io_return ())) (Crawler False True ''/dl'')) =
     [Launch True (Some ''/usr/bin/google-chrome'') [''--no-sandbox'', ''--disable-setuid-sandbox'']] \<and>
   take 1 (calls_made (run quiet_env (io_return ())) (Crawler False False ''/dl'')) =
     [Launch False (Some ''/usr/bin/google-chrome'') [''--no-sandbox'', ''--disable-setuid-sandbox'']]"
  using run_passes_headless [of "io_return ()" quiet_env False True "''/dl''"]
        run_passes_headless [of "io_return ()" quiet_env False False "''/dl''"]
  by (simp add: appends_io_return quiet_env_def chrome_def)

section \<open>Fields that the calls leave alone\<close>

lemma preservesD: "preserves g m \<Longrightarrow> g (snd (m s)) = g s"
  by (simp add: preserves_def)

lemma preserves_io_return: "preserves g (io_return x)"
  by (simp add: preserves_def io_return_def)

lemma preserves_io_throw: "preserves g (io_throw e)"
  by (simp add: preserves_def io_throw_def)

lemma preserves_io_bind:
  assumes "preserves g m" and "\<And>x. preserves g (f x)"
  shows "preserves g (io_bind m f)"
  unfolding preserves_def
proof
  fix s
  show "g (snd (io_bind m f s)) = g s"
  proof (cases "m s")
    case (Pair r s')
    have "g s' = g s" using preservesD [OF assms(1), of s] Pair by simp
    then show ?thesis
      using Pair preservesD [OF assms(2)] by (cases r) (simp_all add: io_bind_def)
  qed
qed

lemma preserves_try_catch:
  assumes "preserves g m" and "\<And>e. preserves g (h e)"
  shows "preserves g (try_catch m h)"
  unfolding preserves_def
proof
  fix s
  show "g (snd (try_catch m h s)) = g s"
  proof (cases "m s")
    case (Pair r s')
    have "g s' = g s" using preservesD [OF assms(1), of s] Pair by simp
    then show ?thesis
      using Pair preservesD [OF assms(2)] by (cases r) (simp_all add: try_catch_def)
  qed
qed

lemma preserves_try_finally:
  assumes "preserves g m" and "preserves g fin"
  shows "preserves g (try_finally m fin)"
  unfolding preserves_def
proof
  fix s
  show "g (snd (try_finally m fin s)) = g s"
  proof (cases "m s")
    case (Pair r s')
    have "g s' = g s" using preservesD [OF assms(1), of s] Pair by simp
    moreover have "g (snd (fin s')) = g s'" by (rule preservesD [OF assms(2)])
    ultimately show ?thesis
      using Pair by (cases "fin s'") (auto simp: try_finally_def split: sum.splits)
  qed
qed

text \<open>Observations that do not read the events are untouched by the calls.\<close>

lemma preserves_ext:
  "(\<And>s es. g (s\<lparr>events := es\<rparr>) = g s) \<Longrightarrow> preserves g (ext env c)"
  by (simp add: preserves_def ext_def split: option.splits)

lemma preserves_ext_of:
  "(\<And>s es. g (s\<lparr>events := es\<rparr>) = g s) \<Longrightarrow> preserves g (\<lambda>s. ext env (c s) s)"
  by (simp add: preserves_def ext_def split: option.splits)

lemma preserves_on_page:
  "(\<And>s es. g (s\<lparr>events := es\<rparr>) = g s) \<Longrightarrow> preserves g (on_page env f)"
  by (simp add: preserves_def on_page_def ext_def split: option.splits)

lemma preserves_console_log:
  "(\<And>s es. g (s\<lparr>events := es\<rparr>) = g s) \<Longrightarrow> preserves g (console_log m)"
  by (simp add: preserves_def console_log_def)

lemma preserves_console_log_of:
  "(\<And>s es. g (s\<lparr>events := es\<rparr>) = g s) \<Longrightarrow> preserves g (\<lambda>s. console_log (m s) s)"
  by (simp add: preserves_def console_log_def)

lemma preserves_page_content:
  "(\<And>s es. g (s\<lparr>events := es\<rparr>) = g s) \<Longrightarrow> preserves g (page_content env)"
  by (simp add: preserves_def page_content_def ext_def split: option.splits)

lemma preserves_browser_pages:
  "(\<And>s es. g (s\<lparr>events := es\<rparr>) = g s) \<Longrightarrow> preserves g (browser_pages env)"
  by (simp add: preserves_def browser_pages_def ext_def split: option.splits)

lemma hasError_launch_and_setup: "preserves hasError (launch_and_setup env)"
  unfolding launch_and_setup_def
  by (intro preserves_io_bind preserves_ext_of preserves_browser_pages
        preserves_on_page preserves_ext)
     (simp_all add: preserves_def io_return_def)

lemma hasError_dump_and_rethrow: "preserves hasError (dump_and_rethrow env e)"
  unfolding dump_and_rethrow_def
proof (rule preserves_io_bind)
  have dump: "preserves hasError (io_bind (page_content env) (\<lambda>markup.
                 io_bind (\<lambda>s'. ext env (WriteFileSync (errorDump s') markup) s')
                   (\<lambda>u s'. console_log (''Current DOM has been saved at '' @ errorDump s') s')))"
    by (intro preserves_io_bind preserves_page_content preserves_ext_of
          preserves_console_log_of) simp_all
  show "preserves hasError (\<lambda>s. if errorDump s = [] then io_return () s
          else io_bind (page_content env) (\<lambda>markup.
                 io_bind (\<lambda>s'. ext env (WriteFileSync (errorDump s') markup) s')
                   (\<lambda>u s'. console_log (''Current DOM has been saved at '' @ errorDump s') s')) s)"
    using dump by (simp add: preserves_def io_return_def)
next
  fix u :: unit
  show "preserves hasError (io_throw e :: unit io)" by (rule preserves_io_throw)
qed

section \<open>The error flag\<close>

text \<open>
  C9, as the code has it. No line of the class assigns \<open>hasError\<close>: \<^verbatim>\<open>run\<close> leaves the
  field as it found it whenever the subclass's \<open>crawl\<close> does, whether \<open>crawl\<close> raised an
  error or not; after construction that value is \<open>False\<close>.
\<close>

theorem run_never_sets_hasError:
  assumes "preserves hasError crawl"
  shows "hasError (snd (run env crawl s)) = hasError s \<and>
         hasError (snd (run env crawl (Crawler debug h dl))) = False"
proof -
  have "preserves hasError (run env crawl)"
    unfolding run_def
    by (intro preserves_io_bind hasError_launch_and_setup preserves_try_finally
          preserves_try_catch assms hasError_dump_and_rethrow preserves_ext) simp
  then show ?thesis by (simp add: preserves_def Crawler_def)
qed

theorem run_never_sets_hasError_witness:
  "preserves hasError failing_crawl \<and>
   hasError (snd (run closed_target_env failing_crawl ready_crawler)) = hasError ready_crawler \<and>
   hasError (snd (run closed_target_env failing_crawl (Crawler False False ''/out''))) = False"
  using run_never_sets_hasError [of failing_crawl closed_target_env ready_crawler False False "''/out''"]
  by (simp add: failing_crawl_def preserves_io_throw)

text \<open>
  C9 as stated fails: \<open>crawl\<close> raises, \<^verbatim>\<open>run\<close> re-raises the error, and the flag is
  still \<open>False\<close>.
\<close>

theorem hasError_stays_false_counterexample:
  "fst (run quiet_env failing_crawl (Crawler True True ''/dl'')) = Inl (JsError ''boom'') \<and>
   hasError (snd (run quiet_env failing_crawl (Crawler True True ''/dl''))) = False"
  by (simp add: run_def launch_and_setup_def dump_and_rethrow_def try_finally_def try_catch_def
        page_content_def console_log_def on_page_def io_throw_def failing_crawl_def
        io_bind_def ext_def browser_pages_def io_return_def
        quiet_env_def Crawler_def chrome_def)

section \<open>Closing the browser\<close>

text \<open>
  C5 at a failing input. The staging directory already exists, \<^verbatim>\<open>fs.mkdirSync\<close> throws
  before the \<^verbatim>\<open>try\<close> block is entered, and \<^verbatim>\<open>run\<close> throws with the browser launched
  and never closed: the events end with the failed \<^verbatim>\<open>mkdirSync\<close> and hold no
  \<^verbatim>\<open>browser.close()\<close>, whatever \<open>crawl\<close> is.
\<close>

theorem run_leaves_browser_open:
  "fst (run existing_temp_env crawl (Crawler False True ''/dl'')) =
     Inl (JsError ''EEXIST: file already exists'') \<and>
   events (snd (run existing_temp_env crawl (Crawler False True ''/dl''))) =
     [(Launch True (Some ''/usr/bin/google-chrome'') [''--no-sandbox'', ''--disable-setuid-sandbox''],
       Returned),
      (BrowserPages, Returned),
      (MkdirSync ''/app/temp'' False, Threw (JsError ''EEXIST: file already exists''))]"
  by (simp add: run_def launch_and_setup_def io_bind_def ext_def browser_pages_def io_return_def
        existing_temp_env_def quiet_env_def Crawler_def chrome_def)

section \<open>The prompt\<close>

text \<open>
  C6. The promise of \<^verbatim>\<open>readUserInput\<close> resolves with exactly the answer when the answer
  is entered before the timer fires, and with the empty string when the timer fires
  first or no answer ever comes: the first of the two callbacks decides, the later one
  changes nothing. The default timeout, 5 * 60 * 1000, is a delay of 300000 ms.
\<close>

theorem readUserInput_first_event_wins:
  "(at < timer_delay timeout \<longrightarrow>
      readUserInput question password timeout (Some (at, answer)) = Some answer) \<and>
   (timer_delay timeout < at \<longrightarrow>
      readUserInput question password timeout (Some (at, answer)) = Some []) \<and>
   readUserInput question password timeout None = Some [] \<and>
   readUserInput question password timeout user =
     on_input_event (hd (callbacks timeout user)) None \<and>
   timer_delay readUserInput_default_timeout = 300000"
  by (auto simp: readUserInput_def callbacks_def on_input_event_def resolve_def
        timer_delay_def readUserInput_default_timeout_def split: option.splits)

theorem readUserInput_first_event_wins_witness:
  "(10 :: int) < timer_delay readUserInput_default_timeout \<and>
   readUserInput ''Password: '' True readUserInput_default_timeout (Some (10, ''secret'')) = Some ''secret'' \<and>
   timer_delay 5000 < (6000 :: int) \<and>
   readUserInput ''Password: '' True 5000 (Some (6000, ''secret'')) = Some []"
  using readUserInput_first_event_wins [of 10 readUserInput_default_timeout "''Password: ''" True "''secret''" None]
        readUserInput_first_event_wins [of 6000 5000 "''Password: ''" True "''secret''" None]
  by (simp add: timer_delay_def readUserInput_default_timeout_def)

section \<open>Downloads\<close>

text \<open>
  C1 at a failing input. The only entry of the staging directory is a partial download
  and the timeout is one poll interval. The loop ends on the timeout with the partial
  file's name, which is not \<^verbatim>\<open>undefined\<close>, so the file is copied to the destination and
  its path is returned.
\<close>

theorem waitForDownload_copies_partial_file:
  "fst (waitForDownload partial_env 100 ready_crawler) = Inr (Some ''/dl/report.pdf.crdownload'') \<and>
   calls_made (waitForDownload partial_env 100) ready_crawler =
     [SetTimeout 100, ReaddirSync ''/app/temp'', ExistsSync ''/dl'', MkdirSync ''/dl'' True,
      CopyFileSync ''/app/temp/report.pdf.crdownload'' ''/dl/report.pdf.crdownload'']"
  by (simp add: waitForDownload_def store_download_def poll.simps fs_readdirSync_def sleep_def
        fs_existsSync_def first_entry_def not_yet_complete_def endsWith_def
        io_bind_def ext_def io_return_def calls_made_def new_events_def
        partial_env_def quiet_env_def ready_crawler_def Crawler_def)

section \<open>The pass-through operations\<close>

lemma calls_waitForTimeout:
  "page s = Some p \<Longrightarrow> calls_made (waitForTimeout env ms) s = [PageWaitForTimeout p ms]"
  by (simp add: calls_made_def new_events_def waitForTimeout_def on_page_def ext_def
        split: option.splits)

lemma calls_goto:
  "page s = Some p \<Longrightarrow>
   calls_made (goto env url) s = [PageGoto p url, PageWaitForNavigation p ''domcontentloaded'']"
  by (simp add: calls_made_def new_events_def goto_def promise_all2_def ext_def
        split: option.splits sum.splits)

lemma calls_waitForSelector:
  "page s = Some p \<Longrightarrow>
   calls_made (waitForSelector env selector) s = [PageWaitForSelector p selector 5000]"
  by (simp add: calls_made_def new_events_def waitForSelector_def on_page_def ext_def
        split: option.splits)

lemma calls_waitAndClick:
  "page s = Some p \<Longrightarrow>
   calls_made (waitAndClick env selector) s =
     PageWaitForSelector p selector 5000 #
     (if env_throws env (events s) (PageWaitForSelector p selector 5000) = None
      then [PageEvaluateClick p selector] else [])"
  by (simp add: calls_made_def new_events_def waitAndClick_def io_bind_def on_page_def ext_def
        split: option.splits)

lemma calls_exists:
  "page s = Some p \<Longrightarrow>
   calls_made (exists env selector) s =
     PageWaitForTimeout p 1000 #
     (if env_throws env (events s) (PageWaitForTimeout p 1000) = None
      then [PageWaitForSelector p selector 5000] else [])"
  by (simp add: calls_made_def new_events_def exists_def waitForTimeout_def try_catch_def
        io_bind_def io_return_def on_page_def ext_def split: option.splits)

lemma calls_click:
  "page s = Some p \<Longrightarrow>
   calls_made (click env selector options) s =
     PageWaitForTimeout p 1000 #
     (if env_throws env (events s) (PageWaitForTimeout p 1000) = None
      then [PageClick p selector options, PageWaitForNavigation p ''load''] else [])"
  by (simp add: calls_made_def new_events_def click_def waitForTimeout_def promise_all2_def
        io_bind_def on_page_def ext_def split: option.splits sum.splits)

lemma calls_type:
  "page s = Some p \<Longrightarrow>
   calls_made (type env selector text_arg options) s =
     PageWaitForTimeout p 1000 #
     (if env_throws env (events s) (PageWaitForTimeout p 1000) = None
      then [PageType p selector text_arg options] else [])"
  by (simp add: calls_made_def new_events_def type_def waitForTimeout_def
        io_bind_def on_page_def ext_def split: option.splits)

text \<open>
  C2, as the code has it. With the tab handle set, \<open>exists\<close>, \<open>click\<close> and \<open>type\<close> first
  wait 1000 ms (\<^verbatim>\<open>this.waitForTimeout(1000)\<close>) and delegate to the page when that wait
  returns. \<open>goto\<close>, \<open>waitForSelector\<close>, \<open>waitAndClick\<close> and \<open>waitForTimeout\<close> delegate at
  once: their first call on the page is the action itself, and \<open>waitForTimeout\<close> waits
  only for the milliseconds it is given.
\<close>

theorem pre_delay_only_in_exists_click_type:
  assumes "page s = Some p"
  shows "calls_made (exists env selector) s =
           PageWaitForTimeout p 1000 #
           (if env_throws env (events s) (PageWaitForTimeout p 1000) = None
            then [PageWaitForSelector p selector 5000] else []) \<and>
         calls_made (click env selector click_opts) s =
           PageWaitForTimeout p 1000 #
           (if env_throws env (events s) (PageWaitForTimeout p 1000) = None
            then [PageClick p selector click_opts, PageWaitForNavigation p ''load''] else []) \<and>
         calls_made (type env selector text_arg type_opts) s =
           PageWaitForTimeout p 1000 #
           (if env_throws env (events s) (PageWaitForTimeout p 1000) = None
            then [PageType p selector text_arg type_opts] else []) \<and>
         calls_made (goto env url) s =
           [PageGoto p url, PageWaitForNavigation p ''domcontentloaded''] \<and>
         calls_made (waitForSelector env selector) s = [PageWaitForSelector p selector 5000] \<and>
         calls_made (waitAndClick env selector) s =
           PageWaitForSelector p selector 5000 #
           (if env_throws env (events s) (PageWaitForSelector p selector 5000) = None
            then [PageEvaluateClick p selector] else []) \<and>
         calls_made (waitForTimeout env ms) s = [PageWaitForTimeout p ms]"
  using assms
  by (simp only: calls_exists calls_click calls_type calls_goto calls_waitForSelector
        calls_waitAndClick calls_waitForTimeout simp_thms)

theorem pre_delay_only_in_exists_click_type_witness:
  "page ready_crawler = Some 0 \<and>
   calls_made (exists quiet_env ''#login'') ready_crawler =
     [PageWaitForTimeout 0 1000, PageWaitForSelector 0 ''#login'' 5000] \<and>
   calls_made (click quiet_env ''#login'' None) ready_crawler =
     [PageWaitForTimeout 0 1000, PageClick 0 ''#login'' None, PageWaitForNavigation 0 ''load''] \<and>
   calls_made (type quiet_env ''#user'' ''me'' None) ready_crawler =
     [PageWaitForTimeout 0 1000, PageType 0 ''#user'' ''me'' None] \<and>
   calls_made (waitForTimeout quiet_env 250) ready_crawler = [PageWaitForTimeout 0 250]"
  using pre_delay_only_in_exists_click_type
          [of ready_crawler 0 quiet_env "''#login''" None "''me''" None "''u''" 250]
        pre_delay_only_in_exists_click_type
          [of ready_crawler 0 quiet_env "''#user''" None "''me''" None "''u''" 250]
  by (simp add: ready_crawler_def quiet_env_def Crawler_def)

text \<open>
  C2 as stated fails: the calls of \<open>goto\<close>, \<open>waitForSelector\<close>, \<open>waitAndClick\<close> and
  \<open>waitForTimeout\<close> on the page hold no wait of 1000 ms.
\<close>

theorem no_pre_delay_counterexample:
  "calls_made (goto quiet_env ''https://example.org'') ready_crawler =
     [PageGoto 0 ''https://example.org'', PageWaitForNavigation 0 ''domcontentloaded''] \<and>
   calls_made (waitForSelector quiet_env ''#login'') ready_crawler =
     [PageWaitForSelector 0 ''#login'' 5000] \<and>
   calls_made (waitAndClick quiet_env ''#login'') ready_crawler =
     [PageWaitForSelector 0 ''#login'' 5000, PageEvaluateClick 0 ''#login''] \<and>
   calls_made (waitForTimeout quiet_env 250) ready_crawler = [PageWaitForTimeout 0 250] \<and>
   PageWaitForTimeout 0 1000 \<notin> set (calls_made (goto quiet_env ''https://example.org'') ready_crawler)"
  by (simp add: calls_made_def new_events_def goto_def waitForSelector_def waitAndClick_def
        waitForTimeout_def promise_all2_def io_bind_def on_page_def ext_def
        ready_crawler_def quiet_env_def Crawler_def)

text \<open>
  C3. Inside the lifecycle, where \<^verbatim>\<open>run\<close> has set the tab handle and the 1-second timer
  before the \<^verbatim>\<open>try\<close> block returns, \<open>exists\<close> never raises an error: for every selector
  it returns true when \<^verbatim>\<open>page.waitForSelector(selector, {timeout: 5000})\<close> finds the
  selector and returns, and false when that call throws.
\<close>

theorem exists_true_or_false:
  assumes "page s = Some p"
      and "env_throws env (events s) (PageWaitForTimeout p 1000) = None"
  shows "fst (exists env selector s) =
           Inr (env_throws env (events s @ [(PageWaitForTimeout p 1000, Returned)])
                  (PageWaitForSelector p selector 5000) = None)"
  using assms
  by (simp add: exists_def waitForTimeout_def try_catch_def io_bind_def io_return_def
        on_page_def ext_def split: option.splits)

theorem exists_true_or_false_witness:
  "page ready_crawler = Some 0 \<and>
   env_throws quiet_env (events ready_crawler) (PageWaitForTimeout 0 1000) = None \<and>
   fst (exists quiet_env ''#login'' ready_crawler) = Inr True \<and>
   env_throws missing_selector_env (events ready_crawler) (PageWaitForTimeout 0 1000) = None \<and>
   fst (exists missing_selector_env ''#login'' ready_crawler) = Inr False"
  using exists_true_or_false [of ready_crawler 0 quiet_env "''#login''"]
        exists_true_or_false [of ready_crawler 0 missing_selector_env "''#login''"]
  by (simp add: ready_crawler_def quiet_env_def missing_selector_env_def Crawler_def)

section \<open>Errors of the crawl step\<close>




section \<open>The polling loop\<close>

text \<open>One round of the loop, by what the directory read does.\<close>

lemma poll_throw:
  assumes "env_throws env (events s @ [(SetTimeout 100, Returned)]) (ReaddirSync (tmpDir s)) = Some e"
  shows "poll env timeout elapsed s =
           (Inl e, s\<lparr>events := events s @
              [(SetTimeout 100, Returned), (ReaddirSync (tmpDir s), Threw e)]\<rparr>)"
  using assms by (subst poll.simps) (simp add: fs_readdirSync_def sleep_def ext_def)

lemma poll_done:
  assumes "env_throws env (events s @ [(SetTimeout 100, Returned)]) (ReaddirSync (tmpDir s)) = None"
      and "\<not> (elapsed + 100 < timeout \<and>
              not_yet_complete (first_entry
                (env_readdir env (events s @ [(SetTimeout 100, Returned)]) (tmpDir s))))"
  shows "poll env timeout elapsed s =
           (Inr (first_entry (env_readdir env (events s @ [(SetTimeout 100, Returned)]) (tmpDir s))),
            s\<lparr>events := events s @
              [(SetTimeout 100, Returned), (ReaddirSync (tmpDir s), Returned)]\<rparr>)"
  using assms by (subst poll.simps) (auto simp: fs_readdirSync_def sleep_def ext_def)

lemma poll_again:
  assumes "env_throws env (events s @ [(SetTimeout 100, Returned)]) (ReaddirSync (tmpDir s)) = None"
      and "elapsed + 100 < timeout"
      and "not_yet_complete (first_entry
             (env_readdir env (events s @ [(SetTimeout 100, Returned)]) (tmpDir s)))"
  shows "poll env timeout elapsed s =
           poll env timeout (elapsed + 100)
             (s\<lparr>events := events s @
                [(SetTimeout 100, Returned), (ReaddirSync (tmpDir s), Returned)]\<rparr>)"
  using assms by (subst poll.simps) (simp add: fs_readdirSync_def sleep_def ext_def)

lemma poll_rounds_induct:
  fixes timeout :: int
  assumes step: "\<And>elapsed s. (\<And>s'. elapsed + 100 < timeout \<Longrightarrow> P (elapsed + 100) s') \<Longrightarrow> P elapsed s"
  shows "P elapsed s"
proof (induction "nat (timeout - elapsed)" arbitrary: elapsed s rule: less_induct)
  case less
  show ?case
  proof (rule step)
    fix s'
    assume "elapsed + 100 < timeout"
    then have "nat (timeout - (elapsed + 100)) < nat (timeout - elapsed)" by simp
    then show "P (elapsed + 100) s'" by (rule less)
  qed
qed

lemma preserves_poll:
  assumes g: "\<And>s es. g (s\<lparr>events := es\<rparr>) = g s" and t: "\<And>s es. tmpDir (s\<lparr>events := es\<rparr>) = tmpDir s"
  shows "g (snd (poll env timeout elapsed s)) = g s"
proof (induction elapsed s rule: poll_rounds_induct [where timeout = timeout])
  case (1 elapsed s)
  show ?case
  proof (cases "env_throws env (events s @ [(SetTimeout 100, Returned)]) (ReaddirSync (tmpDir s))")
    case (Some e)
    then show ?thesis by (simp add: poll_throw g)
  next
    case None
    show ?thesis
    proof (cases "elapsed + 100 < timeout \<and>
              not_yet_complete (first_entry
                (env_readdir env (events s @ [(SetTimeout 100, Returned)]) (tmpDir s)))")
      case False
      with None show ?thesis by (simp add: poll_done g)
    next
      case True
      with None "1" show ?thesis by (simp add: poll_again g)
    qed
  qed
qed

lemma appends_poll: "appends (poll env timeout elapsed)"
proof (rule appendsI)
  fix s
  show "prefix (events s) (events (snd (poll env timeout elapsed s)))"
  proof (induction elapsed s rule: poll_rounds_induct [where timeout = timeout])
    case (1 elapsed s)
    show ?case
    proof (cases "env_throws env (events s @ [(SetTimeout 100, Returned)]) (ReaddirSync (tmpDir s))")
      case (Some e)
      then show ?thesis by (simp add: poll_throw)
    next
      case None
      show ?thesis
      proof (cases "elapsed + 100 < timeout \<and>
                not_yet_complete (first_entry
                  (env_readdir env (events s @ [(SetTimeout 100, Returned)]) (tmpDir s)))")
        case False
        with None show ?thesis by (simp add: poll_done)
      next
        case True
        let ?s' = "s\<lparr>events := events s @
                [(SetTimeout 100, Returned), (ReaddirSync (tmpDir s), Returned)]\<rparr>"
        from True "1" [of ?s']
        have "prefix (events ?s') (events (snd (poll env timeout (elapsed + 100) ?s')))" by simp
        then have "prefix (events s) (events (snd (poll env timeout (elapsed + 100) ?s')))"
          by (auto simp: prefix_def)
        with None True show ?thesis by (simp add: poll_again)
      qed
    qed
  qed
qed

lemma poll_starts_with_a_wait:
  "\<exists>out rest. events (snd (poll env timeout elapsed s)) =
     events s @ (SetTimeout 100, Returned) # (ReaddirSync (tmpDir s), out) # rest"
proof (cases "env_throws env (events s @ [(SetTimeout 100, Returned)]) (ReaddirSync (tmpDir s))")
  case (Some e)
  then show ?thesis by (simp add: poll_throw)
next
  case None
  show ?thesis
  proof (cases "elapsed + 100 < timeout \<and>
            not_yet_complete (first_entry
              (env_readdir env (events s @ [(SetTimeout 100, Returned)]) (tmpDir s)))")
    case False
    with None show ?thesis by (simp add: poll_done)
  next
    case True
    let ?s' = "s\<lparr>events := events s @
            [(SetTimeout 100, Returned), (ReaddirSync (tmpDir s), Returned)]\<rparr>"
    from appendsD [OF appends_poll, of ?s' env timeout "elapsed + 100"]
    obtain zs where "events (snd (poll env timeout (elapsed + 100) ?s')) = events ?s' @ zs"
      by (auto simp: prefix_def)
    with None True show ?thesis by (simp add: poll_again)
  qed
qed

lemma poll_reads_first_entry_only:
  assumes same: "\<forall>h p. first_entry (r' h p) = first_entry (env_readdir env h p)"
  shows "poll (env\<lparr>env_readdir := r'\<rparr>) timeout elapsed s = poll env timeout elapsed s"
proof (induction elapsed s rule: poll_rounds_induct [where timeout = timeout])
  case (1 elapsed s)
  let ?env' = "env\<lparr>env_readdir := r'\<rparr>"
  let ?h = "events s @ [(SetTimeout 100, Returned)]"
  have th: "env_throws ?env' ?h (ReaddirSync (tmpDir s)) = env_throws env ?h (ReaddirSync (tmpDir s))"
    by simp
  have fe: "first_entry (env_readdir ?env' ?h (tmpDir s)) = first_entry (env_readdir env ?h (tmpDir s))"
    using same by simp
  show ?case
  proof (cases "env_throws env ?h (ReaddirSync (tmpDir s))")
    case (Some e)
    with th show ?thesis by (simp only: poll_throw)
  next
    case None
    show ?thesis
    proof (cases "elapsed + 100 < timeout \<and>
              not_yet_complete (first_entry (env_readdir env ?h (tmpDir s)))")
      case False
      have "poll env timeout elapsed s =
              (Inr (first_entry (env_readdir env ?h (tmpDir s))),
               s\<lparr>events := events s @
                 [(SetTimeout 100, Returned), (ReaddirSync (tmpDir s), Returned)]\<rparr>)"
        using None False by (rule poll_done)
      moreover have "poll ?env' timeout elapsed s =
              (Inr (first_entry (env_readdir ?env' ?h (tmpDir s))),
               s\<lparr>events := events s @
                 [(SetTimeout 100, Returned), (ReaddirSync (tmpDir s), Returned)]\<rparr>)"
        using None False th fe by (intro poll_done) simp_all
      ultimately show ?thesis using fe by simp
    next
      case True
      let ?s' = "s\<lparr>events := events s @
                 [(SetTimeout 100, Returned), (ReaddirSync (tmpDir s), Returned)]\<rparr>"
      have "poll env timeout elapsed s = poll env timeout (elapsed + 100) ?s'"
        using None True by (intro poll_again) simp_all
      moreover have "poll ?env' timeout elapsed s = poll ?env' timeout (elapsed + 100) ?s'"
        using None True th fe by (intro poll_again) simp_all
      moreover have "poll ?env' timeout (elapsed + 100) ?s' = poll env timeout (elapsed + 100) ?s'"
        using True by (intro "1") simp
      ultimately show ?thesis by simp
    qed
  qed
qed

lemma crdownload_not_empty: "endsWith n ''.crdownload'' \<Longrightarrow> n \<noteq> []"
  by (auto simp: endsWith_def)

lemma poll_partial_first:
  assumes part: "\<forall>h. \<exists>n. first_entry (env_readdir env h d) = Some n \<and> endsWith n ''.crdownload''"
      and d: "tmpDir s = d"
  shows "case fst (poll env timeout elapsed s) of
           Inl e \<Rightarrow> True
         | Inr None \<Rightarrow> False
         | Inr (Some n) \<Rightarrow> endsWith n ''.crdownload''"
  using d
proof (induction elapsed s rule: poll_rounds_induct [where timeout = timeout])
  case (1 elapsed s)
  let ?h = "events s @ [(SetTimeout 100, Returned)]"
  from part obtain n where n: "first_entry (env_readdir env ?h d) = Some n" "endsWith n ''.crdownload''"
    by blast
  show ?case
  proof (cases "env_throws env ?h (ReaddirSync (tmpDir s))")
    case (Some e)
    then show ?thesis by (simp add: poll_throw)
  next
    case None
    show ?thesis
    proof (cases "elapsed + 100 < timeout")
      case False
      with None n "1.prems" show ?thesis by (simp add: poll_done)
    next
      case True
      let ?s' = "s\<lparr>events := events s @
                 [(SetTimeout 100, Returned), (ReaddirSync (tmpDir s), Returned)]\<rparr>"
      have nyc: "not_yet_complete (first_entry (env_readdir env ?h (tmpDir s)))"
        using n "1.prems" by (simp add: not_yet_complete_def)
      have "poll env timeout elapsed s = poll env timeout (elapsed + 100) ?s'"
        using None True nyc by (rule poll_again)
      moreover have "case fst (poll env timeout (elapsed + 100) ?s') of
           Inl e \<Rightarrow> True
         | Inr None \<Rightarrow> False
         | Inr (Some n) \<Rightarrow> endsWith n ''.crdownload''"
        using True "1.prems" by (intro "1.IH") simp_all
      ultimately show ?thesis by simp
    qed
  qed
qed

lemma appends_store_download: "appends (store_download env f)"
  by (auto simp: appends_def store_download_def io_bind_def fs_existsSync_def
        fs_statSync_isDirectory_def ext_def io_return_def split: option.splits)

lemma waitForDownload_after_poll:
  assumes "poll env timeout 0 s = (Inr (Some f), s1)" and "f \<noteq> []"
  shows "waitForDownload env timeout s = store_download env f s1"
  using assms by (simp add: waitForDownload_def io_bind_def)

section \<open>Storing the download\<close>

lemma store_download_total:
  assumes h: "h = events s @ [(ExistsSync (downloadDir s), Returned)]"
      and ex: "ex = env_exists env (events s) (downloadDir s)"
      and isdir: "isdir = env_isDirectory env h (downloadDir s)"
      and stat_ok: "ex \<Longrightarrow> env_throws env h (StatSync (downloadDir s)) = None"
      and h': "h' = (if ex then h @ [(StatSync (downloadDir s), Returned)] else h)"
      and mkdir_ok: "\<not> (ex \<and> isdir) \<Longrightarrow> env_throws env h' (MkdirSync (downloadDir s) True) = None"
      and h'': "h'' = (if ex \<and> isdir then h' else h' @ [(MkdirSync (downloadDir s) True, Returned)])"
      and copy_ok:
        "env_throws env h''
           (CopyFileSync (env_resolve env [tmpDir s, f]) (env_resolve env [downloadDir s, f])) = None"
  shows "store_download env f s =
           (Inr (Some (env_resolve env [downloadDir s, f])),
            s\<lparr>events := h'' @
               [(CopyFileSync (env_resolve env [tmpDir s, f]) (env_resolve env [downloadDir s, f]),
                 Returned)]\<rparr>)"
proof (cases ex)
  case False
  with assms show ?thesis
    by (simp add: store_download_def io_bind_def fs_existsSync_def ext_def io_return_def)
next
  case True
  note ex_true = True
  show ?thesis
  proof (cases isdir)
    case True
    with ex_true assms show ?thesis
      by (simp add: store_download_def io_bind_def fs_existsSync_def fs_statSync_isDirectory_def
            ext_def io_return_def)
  next
    case False
    with ex_true assms show ?thesis
      by (simp add: store_download_def io_bind_def fs_existsSync_def fs_statSync_isDirectory_def
            ext_def io_return_def)
  qed
qed

text \<open>
  C7, as the code has it. The loop has ended with a file name \<open>f\<close> (a completed download,
  or any other non-empty name) in state \<open>s1\<close>, and none of the file-system calls that
  follow throws: \<^verbatim>\<open>statSync\<close> when the destination \<open>d\<close> exists, \<^verbatim>\<open>mkdirSync\<close> when it is
  absent or not a directory, and \<^verbatim>\<open>copyFileSync\<close>. Then \<^verbatim>\<open>waitForDownload\<close> returns the
  destination path \<^verbatim>\<open>path.resolve(downloadDir, f)\<close>, and what it did after the loop is: ask
  whether \<open>d\<close> exists and, if so, whether it is a directory; call
  \<^verbatim>\<open>mkdirSync(d, {recursive: true})\<close> exactly when \<open>d\<close> was absent or not a directory; copy
  the file from the staging directory to \<open>d\<close> under the same name.
\<close>

theorem waitForDownload_stores_download:
  assumes found: "poll env timeout 0 s = (Inr (Some f), s1)" and ne: "f \<noteq> []"
      and d: "d = downloadDir s"
      and h: "h = events s1 @ [(ExistsSync d, Returned)]"
      and ex: "ex = env_exists env (events s1) d"
      and isdir: "isdir = env_isDirectory env h d"
      and stat_ok: "ex \<Longrightarrow> env_throws env h (StatSync d) = None"
      and h': "h' = (if ex then h @ [(StatSync d, Returned)] else h)"
      and mkdir_ok: "\<not> (ex \<and> isdir) \<Longrightarrow> env_throws env h' (MkdirSync d True) = None"
      and h'': "h'' = (if ex \<and> isdir then h' else h' @ [(MkdirSync d True, Returned)])"
      and copy_ok:
        "env_throws env h'' (CopyFileSync (env_resolve env [tmpDir s, f]) (env_resolve env [d, f])) = None"
  shows "fst (waitForDownload env timeout s) = Inr (Some (env_resolve env [d, f])) \<and>
         events (snd (waitForDownload env timeout s)) =
           h'' @ [(CopyFileSync (env_resolve env [tmpDir s, f]) (env_resolve env [d, f]), Returned)]"
proof -
  have wfd: "waitForDownload env timeout s = store_download env f s1"
    using found ne by (rule waitForDownload_after_poll)
  have "downloadDir (snd (poll env timeout 0 s)) = downloadDir s"
    by (rule preserves_poll) simp_all
  with found d have dd: "downloadDir s1 = d" by simp
  have "tmpDir (snd (poll env timeout 0 s)) = tmpDir s"
    by (rule preserves_poll) simp_all
  with found have td: "tmpDir s1 = tmpDir s" by simp
  have "store_download env f s1 =
           (Inr (Some (env_resolve env [downloadDir s1, f])),
            s1\<lparr>events := h'' @
               [(CopyFileSync (env_resolve env [tmpDir s1, f]) (env_resolve env [downloadDir s1, f]),
                 Returned)]\<rparr>)"
    using h ex isdir stat_ok h' mkdir_ok h'' copy_ok
    by (intro store_download_total [where h = h and ex = ex and isdir = isdir and h' = h'])
       (simp_all add: dd td)
  then show ?thesis by (simp add: wfd dd td)
qed

theorem waitForDownload_stores_download_witness:
  "poll completed_env 5000 0 ready_crawler =
     (Inr (Some ''report.pdf''),
      ready_crawler\<lparr>events := [(SetTimeout 100, Returned), (ReaddirSync ''/app/temp'', Returned)]\<rparr>) \<and>
   fst (waitForDownload completed_env 5000 ready_crawler) = Inr (Some ''/dl/report.pdf'') \<and>
   events (snd (waitForDownload completed_env 5000 ready_crawler)) =
     [(SetTimeout 100, Returned), (ReaddirSync ''/app/temp'', Returned),
      (ExistsSync ''/dl'', Returned), (MkdirSync ''/dl'' True, Returned),
      (CopyFileSync ''/app/temp/report.pdf'' ''/dl/report.pdf'', Returned)] \<and>
   poll existing_dest_env 5000 0 ready_crawler =
     (Inr (Some ''report.pdf''),
      ready_crawler\<lparr>events := [(SetTimeout 100, Returned), (ReaddirSync ''/app/temp'', Returned)]\<rparr>) \<and>
   fst (waitForDownload existing_dest_env 5000 ready_crawler) = Inr (Some ''/dl/report.pdf'') \<and>
   events (snd (waitForDownload existing_dest_env 5000 ready_crawler)) =
     [(SetTimeout 100, Returned), (ReaddirSync ''/app/temp'', Returned),
      (ExistsSync ''/dl'', Returned), (StatSync ''/dl'', Returned),
      (CopyFileSync ''/app/temp/report.pdf'' ''/dl/report.pdf'', Returned)]"
proof -
  let ?s1 = "ready_crawler\<lparr>events := [(SetTimeout 100, Returned), (ReaddirSync ''/app/temp'', Returned)]\<rparr>"
  let ?h = "[(SetTimeout 100, Returned), (ReaddirSync ''/app/temp'', Returned), (ExistsSync ''/dl'', Returned)]"
  have found1: "poll completed_env 5000 0 ready_crawler = (Inr (Some ''report.pdf''), ?s1)"
    by (simp add: poll.simps fs_readdirSync_def sleep_def ext_def first_entry_def
          not_yet_complete_def endsWith_def completed_env_def quiet_env_def ready_crawler_def
          Crawler_def)
  have found2: "poll existing_dest_env 5000 0 ready_crawler = (Inr (Some ''report.pdf''), ?s1)"
    by (simp add: poll.simps fs_readdirSync_def sleep_def ext_def first_entry_def
          not_yet_complete_def endsWith_def existing_dest_env_def quiet_env_def ready_crawler_def
          Crawler_def)
  have r1: "fst (waitForDownload completed_env 5000 ready_crawler) =
              Inr (Some (env_resolve completed_env [''/dl'', ''report.pdf''])) \<and>
            events (snd (waitForDownload completed_env 5000 ready_crawler)) =
              (?h @ [(MkdirSync ''/dl'' True, Returned)]) @
              [(CopyFileSync (env_resolve completed_env [tmpDir ready_crawler, ''report.pdf''])
                  (env_resolve completed_env [''/dl'', ''report.pdf'']), Returned)]"
    by (rule waitForDownload_stores_download
          [where ?s1.0 = ?s1 and h = ?h and ex = False and isdir = False and h' = ?h, OF found1])
       (simp_all add: completed_env_def quiet_env_def ready_crawler_def Crawler_def)
  have r2: "fst (waitForDownload existing_dest_env 5000 ready_crawler) =
              Inr (Some (env_resolve existing_dest_env [''/dl'', ''report.pdf''])) \<and>
            events (snd (waitForDownload existing_dest_env 5000 ready_crawler)) =
              (?h @ [(StatSync ''/dl'', Returned)]) @
              [(CopyFileSync (env_resolve existing_dest_env [tmpDir ready_crawler, ''report.pdf''])
                  (env_resolve existing_dest_env [''/dl'', ''report.pdf'']), Returned)]"
    by (rule waitForDownload_stores_download
          [where ?s1.0 = ?s1 and h = ?h and ex = True and isdir = True
             and h' = "?h @ [(StatSync ''/dl'', Returned)]", OF found2])
       (simp_all add: existing_dest_env_def quiet_env_def ready_crawler_def Crawler_def)
  from found1 found2 r1 r2 show ?thesis
    by (simp add: completed_env_def existing_dest_env_def quiet_env_def ready_crawler_def
          Crawler_def)
qed

text \<open>
  C7 as stated fails where the destination is not a directory: the path exists as a
  regular file, so \<^verbatim>\<open>mkdirSync\<close> throws. A completed download was found, yet no
  directory is created, nothing is copied and no path is returned.
\<close>

theorem mkdir_failure_counterexample:
  "fst (poll dest_is_file_env 5000 0 ready_crawler) = Inr (Some ''report.pdf'') \<and>
   fst (waitForDownload dest_is_file_env 5000 ready_crawler) =
     Inl (JsError ''EEXIST: file already exists'') \<and>
   calls_made (waitForDownload dest_is_file_env 5000) ready_crawler =
     [SetTimeout 100, ReaddirSync ''/app/temp'', ExistsSync ''/dl'', StatSync ''/dl'',
      MkdirSync ''/dl'' True]"
  by (simp add: waitForDownload_def store_download_def poll.simps fs_readdirSync_def sleep_def
        fs_existsSync_def fs_statSync_isDirectory_def first_entry_def not_yet_complete_def
        endsWith_def io_bind_def ext_def io_return_def calls_made_def new_events_def
        dest_is_file_env_def quiet_env_def ready_crawler_def Crawler_def)

section \<open>What the loop looks at\<close>

lemma ext_ignores_listing: "ext (env\<lparr>env_readdir := r'\<rparr>) c = ext env c"
  by (simp add: ext_def fun_eq_iff)

lemma existsSync_ignores_listing:
  "fs_existsSync (env\<lparr>env_readdir := r'\<rparr>) p = fs_existsSync env p"
  by (simp add: fs_existsSync_def fun_eq_iff)

lemma statSync_ignores_listing:
  "fs_statSync_isDirectory (env\<lparr>env_readdir := r'\<rparr>) p = fs_statSync_isDirectory env p"
  by (auto simp: fs_statSync_isDirectory_def ext_ignores_listing fun_eq_iff
        split: prod.splits sum.splits)

lemma store_download_ignores_listing:
  "store_download (env\<lparr>env_readdir := r'\<rparr>) f = store_download env f"
  by (simp add: store_download_def existsSync_ignores_listing statSync_ignores_listing
        ext_ignores_listing cong: if_cong)

lemma waitForDownload_first_entry_only:
  assumes "\<forall>h p. first_entry (r' h p) = first_entry (env_readdir env h p)"
  shows "waitForDownload (env\<lparr>env_readdir := r'\<rparr>) timeout s = waitForDownload env timeout s"
proof -
  have "poll (env\<lparr>env_readdir := r'\<rparr>) timeout 0 = poll env timeout 0"
    by (simp add: fun_eq_iff poll_reads_first_entry_only [OF assms])
  then show ?thesis
    by (simp add: waitForDownload_def store_download_ignores_listing
          cong: if_cong option.case_cong)
qed

lemma waitForDownload_starts_with_a_wait:
  "take 2 (calls_made (waitForDownload env timeout) s) = [SetTimeout 100, ReaddirSync (tmpDir s)]"
proof -
  from poll_starts_with_a_wait [of env timeout 0 s] obtain out rest where
    ev: "events (snd (poll env timeout 0 s)) =
           events s @ (SetTimeout 100, Returned) # (ReaddirSync (tmpDir s), out) # rest"
    by blast
  have k: "\<And>x. appends (case x of None \<Rightarrow> io_return None
                     | Some f \<Rightarrow> if f = [] then io_return None else store_download env f)"
    by (simp add: appends_io_return appends_store_download split: option.splits)
  have "appends (waitForDownload env timeout)"
    unfolding waitForDownload_def by (intro appends_io_bind appends_poll k)
  show ?thesis
  proof (cases "poll env timeout 0 s")
    case (Pair r s')
    show ?thesis
    proof (cases r)
      case (Inl e)
      with Pair ev show ?thesis
        by (simp add: waitForDownload_def io_bind_def calls_made_def new_events_def)
    next
      case (Inr x)
      from appendsD [OF k, of s' x] obtain zs where
        "events (snd ((case x of None \<Rightarrow> io_return None
                     | Some f \<Rightarrow> if f = [] then io_return None else store_download env f) s')) =
           events s' @ zs"
        by (auto simp: prefix_def)
      with Pair Inr ev show ?thesis
        by (simp add: waitForDownload_def io_bind_def calls_made_def new_events_def)
    qed
  qed
qed

text \<open>
  C10. Each round of the loop reads only the first entry of the listing: replacing the
  listings by others with the same first entries changes nothing of what
  \<^verbatim>\<open>waitForDownload\<close> does. So when a partial download is listed first at every poll,
  the loop never ends with a completed file that is listed behind it: it ends with an
  error of the directory read or, on the timeout, with a partial file's name. And every
  call, whatever its timeout (zero and negative ones too), first waits 100 ms and only
  then reads the directory.
\<close>

theorem waitForDownload_looks_at_first_entry_only:
  "((\<forall>h p. first_entry (r' h p) = first_entry (env_readdir env h p)) \<longrightarrow>
      waitForDownload (env\<lparr>env_readdir := r'\<rparr>) timeout s = waitForDownload env timeout s) \<and>
   ((\<forall>h. \<exists>n. first_entry (env_readdir env h (tmpDir s)) = Some n \<and> endsWith n ''.crdownload'') \<longrightarrow>
      (case fst (poll env timeout 0 s) of
         Inl e \<Rightarrow> True
       | Inr None \<Rightarrow> False
       | Inr (Some n) \<Rightarrow> endsWith n ''.crdownload'')) \<and>
   take 2 (calls_made (waitForDownload env timeout) s) = [SetTimeout 100, ReaddirSync (tmpDir s)]"
proof (intro conjI impI)
  assume "\<forall>h p. first_entry (r' h p) = first_entry (env_readdir env h p)"
  then show "waitForDownload (env\<lparr>env_readdir := r'\<rparr>) timeout s = waitForDownload env timeout s"
    by (rule waitForDownload_first_entry_only)
next
  assume "\<forall>h. \<exists>n. first_entry (env_readdir env h (tmpDir s)) = Some n \<and> endsWith n ''.crdownload''"
  then show "case fst (poll env timeout 0 s) of
         Inl e \<Rightarrow> True
       | Inr None \<Rightarrow> False
       | Inr (Some n) \<Rightarrow> endsWith n ''.crdownload''"
    by (rule poll_partial_first) simp
next
  show "take 2 (calls_made (waitForDownload env timeout) s) = [SetTimeout 100, ReaddirSync (tmpDir s)]"
    by (rule waitForDownload_starts_with_a_wait)
qed

theorem waitForDownload_looks_at_first_entry_only_witness:
  "(\<forall>h p. first_entry ((\<lambda>h p. [''a.zip.crdownload'']) h p) =
            first_entry (env_readdir partial_first_env h p)) \<and>
   waitForDownload (partial_first_env\<lparr>env_readdir := (\<lambda>h p. [''a.zip.crdownload''])\<rparr>) 250 ready_crawler =
     waitForDownload partial_first_env 250 ready_crawler \<and>
   (\<forall>h. \<exists>n. first_entry (env_readdir partial_first_env h (tmpDir ready_crawler)) = Some n \<and>
            endsWith n ''.crdownload'') \<and>
   fst (poll partial_first_env 250 0 ready_crawler) = Inr (Some ''a.zip.crdownload'') \<and>
   take 2 (calls_made (waitForDownload partial_first_env (- 5)) ready_crawler) =
     [SetTimeout 100, ReaddirSync ''/app/temp'']"
proof -
  have a: "\<forall>h p. first_entry ((\<lambda>h p. [''a.zip.crdownload'']) h p) =
            first_entry (env_readdir partial_first_env h p)"
    by (simp add: partial_first_env_def quiet_env_def first_entry_def)
  have b: "\<forall>h. \<exists>n. first_entry (env_readdir partial_first_env h (tmpDir ready_crawler)) = Some n \<and>
            endsWith n ''.crdownload''"
    by (simp add: partial_first_env_def quiet_env_def first_entry_def endsWith_def)
  have c: "fst (poll partial_first_env 250 0 ready_crawler) = Inr (Some ''a.zip.crdownload'')"
    by (simp add: poll.simps fs_readdirSync_def sleep_def ext_def first_entry_def
          not_yet_complete_def endsWith_def partial_first_env_def quiet_env_def ready_crawler_def
          Crawler_def)
  have d: "tmpDir ready_crawler = ''/app/temp''"
    by (simp add: ready_crawler_def)
  from waitForDownload_looks_at_first_entry_only
         [of "\<lambda>h p. [''a.zip.crdownload'']" partial_first_env 250 ready_crawler]
       waitForDownload_looks_at_first_entry_only
         [of "\<lambda>h p. [''a.zip.crdownload'']" partial_first_env "- 5" ready_crawler]
       a b c d
  show ?thesis by simp
qed

end
